theory Spec2Isabelle
  imports Main "HOL-Library.AList"
begin

section \<open>Data model of \<^verbatim>\<open>src/services/EventsService.ts\<close>\<close>

text \<open>
  The ten members of the union type \<^verbatim>\<open>EventType\<close>.
\<close>

datatype EventType =
    TICKET_CREATED | TICKET_CALLED | TICKET_RECALLED | TICKET_CANCELLED
  | TICKET_SERVED | TICKET_CHANGED | OVERVIEW_MONITOR_CHANGE | SIGN_IN_CHANGE
  | LINES_CHANGED | LOCATION_CHANGE

text \<open>
  \<^verbatim>\<open>type EventFilter = { line?: number, location?: number } | undefined\<close>: the object is
  a record of two optional numbers, and the argument \<^verbatim>\<open>filter?: EventFilter\<close> is an
  option of it (\<open>None\<close> is \<^verbatim>\<open>undefined\<close>). An absent field is \<open>None\<close>.
\<close>

record EventFilter =
  line :: "int option"
  location :: "int option"

text \<open>
  \<^verbatim>\<open>type EventSubscription = { subscribe, id, line?, location?, parameters?: { id } }\<close>.
  The fields carry the prefix \<open>sub_\<close> because \<open>subscribe\<close> is also the method's name and
  \<open>id\<close> is a constant of HOL. \<open>sub_parameters = Some n\<close> is the object \<^verbatim>\<open>{ id: n }\<close>.
\<close>

record EventSubscription =
  sub_subscribe :: EventType
  sub_id :: string
  sub_line :: "int option"
  sub_location :: "int option"
  sub_parameters :: "int option"

text \<open>
  A value passed where the source expects a callback. The service only ever asks two
  things of it: whether \<^verbatim>\<open>typeof\<close> is \<^verbatim>\<open>'function'\<close>, and to call it. A user function is
  known to the model by a label and by whether the call throws; calling it is recorded in
  the trace \<open>calls\<close> of the state. User code that calls back into the service during the
  call is outside this model.
\<close>

datatype callback = Function nat bool | NotFunction

type_synonym payload = string

datatype invocation = Invoked nat "payload option"

text \<open>A value passed as the \<^verbatim>\<open>id\<close> argument; \<^verbatim>\<open>typeof v === 'number'\<close> holds for \<open>Number\<close> only.\<close>

datatype jsvalue = Undefined | Number int | String string | Object

fun typeof_number :: "jsvalue \<Rightarrow> bool" where
  "typeof_number (Number n) = True"
| "typeof_number v = False"

text \<open>
  What a call can end with: it returns, or it throws. \<open>Error m\<close> is \<^verbatim>\<open>new Error(m)\<close> of the
  source, \<open>TypeError\<close> is the platform's error for a method call on \<^verbatim>\<open>undefined\<close>, and
  \<open>Thrown l\<close> is whatever the user function labelled \<open>l\<close> throws. Fields written before a
  throw keep their new values, so every operation returns the outcome together with the
  state.
\<close>

datatype exn = Error string | TypeError | Thrown nat

datatype outcome = Returned | Threw exn

definition MISSING_API_KEY :: exn where
  "MISSING_API_KEY = Error ''Please set the API key: Qminder.setKey(...);''"

definition MISSING_LOCATION_ID :: exn where
  "MISSING_LOCATION_ID = Error ''EventsService: onLocationChanged: missing location ID''"

definition CONNECT_NOT_FUNCTION :: exn where
  "CONNECT_NOT_FUNCTION = Error ''Connect callback is not a function.''"

definition DISCONNECT_NOT_FUNCTION :: exn where
  "DISCONNECT_NOT_FUNCTION = Error ''Disconnect callback is not a function.''"

subsection \<open>The transport and the timers\<close>

text \<open>
  Modelled from the spec: the transport handle. \<^verbatim>\<open>../lib/websocket-web\<close> is not among the
  sources; the specification (section 6) gives its interface: opening a URL yields a handle
  with open, close, error and message signals, a \<^verbatim>\<open>send(text)\<close> operation, a \<^verbatim>\<open>close\<close>
  operation and a ready state that tells "open" from the other states. A handle is its
  index in \<open>sockets\<close>; \<open>sent\<close> is the sequence of frames handed to \<^verbatim>\<open>send\<close>, each with the
  handle it was sent on. A frame is the literal \<^verbatim>\<open>"PING"\<close> or \<^verbatim>\<open>JSON.stringify\<close> of a
  subscription record.
\<close>

datatype readyState = CONNECTING | OPEN | CLOSING | CLOSED

record websocket =
  url :: string
  readyState :: readyState

datatype frame = PING | JSON_stringify EventSubscription

text \<open>
  The fields of the class, in the order of their declaration, followed by the environment
  the class acts on: the sockets it has constructed, the pending timeouts and the running
  intervals (handle and delay, newest first), the next timer handle, the frames sent and the
  user functions called. \<open>None\<close> is \<^verbatim>\<open>null\<close>/\<^verbatim>\<open>undefined\<close>. Timer handles are never \<open>0\<close>, so
  a handle is truthy. \<^verbatim>\<open>subscriptionCallbackMap\<close> is an association list read with
  \<open>map_of\<close> and written with \<open>AList.update\<close>.
\<close>

record state =
  apiKey :: string
  apiServer :: string
  socket :: "nat option"
  connecting :: bool
  connected :: bool
  retryTimeout :: "nat option"
  pingInterval :: "nat option"
  subscriptions :: "EventSubscription list"
  connectionRetries :: nat
  subscriptionCallbackMap :: "(string \<times> callback) list"
  onConnectCallbacks :: "callback list"
  onDisconnectCallbacks :: "callback list"
  sockets :: "websocket list"
  timeouts :: "(nat \<times> nat) list"
  intervals :: "(nat \<times> nat) list"
  nextTimer :: nat
  sent :: "(nat \<times> frame) list"
  calls :: "invocation list"

text \<open>
  The platform's timers. \<^verbatim>\<open>setTimeout\<close> and \<^verbatim>\<open>setInterval\<close> return a handle never returned
  before; \<^verbatim>\<open>clearTimeout\<close> and \<^verbatim>\<open>clearInterval\<close> cancel the timer with the handle, and do
  nothing when it has fired or was cancelled already.
\<close>

definition setTimeout :: "nat \<Rightarrow> state \<Rightarrow> nat \<times> state" where
  "setTimeout delay s =
     (nextTimer s,
      s\<lparr>timeouts := (nextTimer s, delay) # timeouts s, nextTimer := Suc (nextTimer s)\<rparr>)"

definition clearTimeout :: "nat \<Rightarrow> state \<Rightarrow> state" where
  "clearTimeout h s = s\<lparr>timeouts := filter (\<lambda>t. fst t \<noteq> h) (timeouts s)\<rparr>"

definition setInterval :: "nat \<Rightarrow> state \<Rightarrow> nat \<times> state" where
  "setInterval period s =
     (nextTimer s,
      s\<lparr>intervals := (nextTimer s, period) # intervals s, nextTimer := Suc (nextTimer s)\<rparr>)"

definition clearInterval :: "nat \<Rightarrow> state \<Rightarrow> state" where
  "clearInterval h s = s\<lparr>intervals := filter (\<lambda>t. fst t \<noteq> h) (intervals s)\<rparr>"

text \<open>
  Modelled from the spec: the operations on the transport handle (construction, ready
  state, \<^verbatim>\<open>close\<close>, \<^verbatim>\<open>send\<close>) of the missing \<^verbatim>\<open>../lib/websocket-web\<close>. A socket is
  constructed connecting; \<^verbatim>\<open>new WebSocket(url)\<close> does not give the service a signal before
  the call that constructed it has returned.
\<close>

definition new_WebSocket :: "string \<Rightarrow> state \<Rightarrow> nat \<times> state" where
  "new_WebSocket u s =
     (length (sockets s),
      s\<lparr>sockets := sockets s @ [\<lparr>url = u, readyState = CONNECTING\<rparr>]\<rparr>)"

definition readyStateOf :: "state \<Rightarrow> nat \<Rightarrow> readyState option" where
  "readyStateOf s h =
     (if h < length (sockets s) then Some (readyState (sockets s ! h)) else None)"

definition setReadyState :: "nat \<Rightarrow> readyState \<Rightarrow> state \<Rightarrow> state" where
  "setReadyState h r s =
     (if h < length (sockets s)
      then s\<lparr>sockets := (sockets s)[h := (sockets s ! h)\<lparr>readyState := r\<rparr>]\<rparr>
      else s)"

text \<open>\<^verbatim>\<open>socket.close()\<close>: the handle starts closing; its close signal comes later.\<close>

definition socket_close :: "nat \<Rightarrow> state \<Rightarrow> state" where
  "socket_close h s = setReadyState h CLOSING s"

text \<open>
  \<^verbatim>\<open>this.socket.send(text)\<close>: a method call on \<^verbatim>\<open>undefined\<close> when no socket was ever
  constructed, otherwise the frame is handed to the transport.
\<close>

definition socket_send :: "frame \<Rightarrow> state \<Rightarrow> outcome \<times> state" where
  "socket_send m s =
     (case socket s of
        None \<Rightarrow> (Threw TypeError, s)
      | Some h \<Rightarrow> (Returned, s\<lparr>sent := sent s @ [(h, m)]\<rparr>))"

text \<open>
  \<^verbatim>\<open>Array.prototype.forEach\<close> with a body that may throw: the elements are visited in
  order, and a throw ends the loop with the elements after it unvisited.
\<close>

fun forEach :: "('a \<Rightarrow> state \<Rightarrow> outcome \<times> state) \<Rightarrow> 'a list \<Rightarrow> state \<Rightarrow> outcome \<times> state" where
  "forEach f [] s = (Returned, s)"
| "forEach f (x # xs) s =
     (case f x s of
        (Returned, s') \<Rightarrow> forEach f xs s'
      | (Threw e, s') \<Rightarrow> (Threw e, s'))"

section \<open>The methods of \<^verbatim>\<open>EventsService\<close>\<close>

text \<open>\<^verbatim>\<open>reset()\<close>, lines 614-637. It neither throws nor clears \<^verbatim>\<open>this.socket\<close>.\<close>

definition reset :: "state \<Rightarrow> state" where
  "reset s =
     (let s1 = s\<lparr>apiKey := [], apiServer := ''wss://api.qminder.com:443''\<rparr>;
          s2 = (case socket s1 of
                  Some h \<Rightarrow> if readyStateOf s1 h = Some OPEN then socket_close h s1 else s1
                | None \<Rightarrow> s1);
          s3 = s2\<lparr>connecting := False, connected := False\<rparr>;
          s4 = (case retryTimeout s3 of Some h \<Rightarrow> clearTimeout h s3 | None \<Rightarrow> s3);
          s5 = s4\<lparr>retryTimeout := None\<rparr>;
          s6 = (case pingInterval s5 of Some h \<Rightarrow> clearInterval h s5 | None \<Rightarrow> s5)
      in s6\<lparr>pingInterval := None, subscriptions := [], connectionRetries := 0,
            subscriptionCallbackMap := [], onConnectCallbacks := [],
            onDisconnectCallbacks := []\<rparr>)"

text \<open>
  The object \<^verbatim>\<open>new EventsService()\<close>: the constructor calls \<^verbatim>\<open>reset()\<close> on an object with
  no field set, in an environment where nothing has happened yet.
\<close>

definition constructor :: state where
  "constructor =
     reset \<lparr>apiKey = [], apiServer = [], socket = None, connecting = False,
            connected = False, retryTimeout = None, pingInterval = None,
            subscriptions = [], connectionRetries = 0, subscriptionCallbackMap = [],
            onConnectCallbacks = [], onDisconnectCallbacks = [], sockets = [],
            timeouts = [], intervals = [], nextTimer = 1, sent = [], calls = []\<rparr>"

definition onConnect :: "state \<Rightarrow> callback \<Rightarrow> outcome \<times> state" where
  "onConnect s callback =
     (case callback of
        Function l t \<Rightarrow> (Returned, s\<lparr>onConnectCallbacks := onConnectCallbacks s @ [callback]\<rparr>)
      | NotFunction \<Rightarrow> (Threw CONNECT_NOT_FUNCTION, s))"

definition onDisconnect :: "state \<Rightarrow> callback \<Rightarrow> outcome \<times> state" where
  "onDisconnect s callback =
     (case callback of
        Function l t \<Rightarrow>
          (Returned, s\<lparr>onDisconnectCallbacks := onDisconnectCallbacks s @ [callback]\<rparr>)
      | NotFunction \<Rightarrow> (Threw DISCONNECT_NOT_FUNCTION, s))"

definition setKey :: "state \<Rightarrow> string \<Rightarrow> state" where
  "setKey s k = s\<lparr>apiKey := k\<rparr>"

definition setServer :: "state \<Rightarrow> string \<Rightarrow> state" where
  "setServer s srv = s\<lparr>apiServer := srv\<rparr>"

text \<open>
  \<^verbatim>\<open>openSocket()\<close>, lines 205-222: the part that runs when it is called. The four
  handlers it installs on the new socket are the functions \<open>onopen\<close>, \<open>onclose\<close> and
  \<open>onmessage\<close> below (\<^verbatim>\<open>onerror\<close> only logs); they read and write the fields of \<^verbatim>\<open>this\<close>,
  not of the socket they were installed on.
\<close>

definition openSocket :: "state \<Rightarrow> outcome \<times> state" where
  "openSocket s =
     (if apiKey s = [] then (Threw MISSING_API_KEY, s)
      else if connecting s \<or> connected s then (Returned, s)
      else
        let s1 = s\<lparr>connecting := True\<rparr>;
            s2 = (case retryTimeout s1 of Some h \<Rightarrow> clearTimeout h s1 | None \<Rightarrow> s1);
            (h, s3) = new_WebSocket (apiServer s2 @ ''/events?rest-api-key='' @ apiKey s2) s2
        in (Returned, s3\<lparr>socket := Some h\<rparr>))"

text \<open>\<^verbatim>\<open>subscribe(subscription, callback?)\<close>, lines 359-371.\<close>

definition subscribe :: "state \<Rightarrow> EventSubscription \<Rightarrow> callback \<Rightarrow> outcome \<times> state" where
  "subscribe s subscription callback =
     (let s1 = (if find (\<lambda>sub. sub_id sub = sub_id subscription) (subscriptions s) = None
                then s\<lparr>subscriptions := subscriptions s @ [subscription]\<rparr>
                else s);
          s2 = (case callback of
                  Function l t \<Rightarrow>
                    s1\<lparr>subscriptionCallbackMap :=
                         AList.update (sub_id subscription) callback (subscriptionCallbackMap s1)\<rparr>
                | NotFunction \<Rightarrow> s1)
      in if connected s2 then socket_send (JSON_stringify subscription) s2
         else if \<not> connecting s2 then openSocket s2
         else (Returned, s2))"

text \<open>One call \<^verbatim>\<open>each()\<close> of an observer, behind its \<^verbatim>\<open>typeof each === 'function'\<close> test.\<close>

definition callObserver :: "callback \<Rightarrow> state \<Rightarrow> outcome \<times> state" where
  "callObserver each s =
     (case each of
        Function l t \<Rightarrow>
          (if t then Threw (Thrown l) else Returned, s\<lparr>calls := calls s @ [Invoked l None]\<rparr>)
      | NotFunction \<Rightarrow> (Returned, s))"

text \<open>\<^verbatim>\<open>socket.onopen\<close>, lines 224-239.\<close>

definition onopen :: "state \<Rightarrow> outcome \<times> state" where
  "onopen s =
     (let s1 = s\<lparr>connected := True, connectionRetries := 0\<rparr>
      in case forEach (\<lambda>message st. subscribe st message NotFunction) (subscriptions s1) s1 of
           (Threw e, s2) \<Rightarrow> (Threw e, s2)
         | (Returned, s2) \<Rightarrow>
             let (h, s3) = setInterval 10000 s2;
                 s4 = s3\<lparr>pingInterval := Some h\<rparr>
             in forEach callObserver (onConnectCallbacks s4) s4)"

text \<open>\<^verbatim>\<open>socket.onclose\<close>, lines 241-274; \<open>code\<close> is \<^verbatim>\<open>event.code\<close>.\<close>

definition onclose :: "state \<Rightarrow> nat \<Rightarrow> outcome \<times> state" where
  "onclose s code =
     (let s1 = s\<lparr>connected := False, connecting := False\<rparr>;
          s2 = (case pingInterval s1 of
                  Some h \<Rightarrow> (clearInterval h s1)\<lparr>pingInterval := None\<rparr>
                | None \<Rightarrow> s1);
          s3 = (if code \<noteq> 1000 then
                  let timeoutMult = connectionRetries s2 div 10;
                      newTimeout = min (5000 + timeoutMult * 1000) 60000;
                      s2a = (case retryTimeout s2 of
                               Some h \<Rightarrow> clearTimeout h s2
                             | None \<Rightarrow> s2);
                      (h, s2b) = setTimeout newTimeout s2a
                  in s2b\<lparr>retryTimeout := Some h,
                          connectionRetries := connectionRetries s2b + 1\<rparr>
                else s2)
      in forEach callObserver (onDisconnectCallbacks s3) s3)"

text \<open>
  \<^verbatim>\<open>socket.onmessage\<close>, lines 280-297. \<^verbatim>\<open>rawMessage.data\<close> is a string or binary data.
  \<^verbatim>\<open>JSON.parse\<close> belongs to the platform and is a parameter: it yields \<open>None\<close> when
  parsing, or reading a property of what was parsed, throws, and otherwise the property
  key that \<^verbatim>\<open>message.subscriptionId\<close> indexes the callback map with, and \<^verbatim>\<open>message.data\<close>.
  Every exception of the \<^verbatim>\<open>try\<close> block, the callback's included, is caught and logged.
  The map is read as its own properties; a key inherited from \<^verbatim>\<open>Object.prototype\<close> would
  resolve to a built-in that touches no field of the service.
\<close>

datatype MessageData = StringData string | BinaryData

record message =
  subscriptionId :: string
  data :: payload

definition onmessage :: "(string \<Rightarrow> message option) \<Rightarrow> state \<Rightarrow> MessageData \<Rightarrow> outcome \<times> state" where
  "onmessage JSON_parse s rawData =
     (if rawData = StringData ''PONG'' then (Returned, s)
      else case rawData of
        StringData text \<Rightarrow>
          (case JSON_parse text of
             None \<Rightarrow> (Returned, s)
           | Some m \<Rightarrow>
               (case map_of (subscriptionCallbackMap s) (subscriptionId m) of
                  Some (Function l t) \<Rightarrow>
                    (Returned, s\<lparr>calls := calls s @ [Invoked l (Some (data m))]\<rparr>)
                | Some NotFunction \<Rightarrow> (Returned, s)
                | None \<Rightarrow> (Returned, s)))
      | BinaryData \<Rightarrow> (Returned, s))"

text \<open>\<^verbatim>\<open>closeSocket()\<close>, lines 305-311; the other branch only logs.\<close>

definition closeSocket :: "state \<Rightarrow> state" where
  "closeSocket s =
     (case socket s of
        Some h \<Rightarrow> if readyStateOf s h = Some OPEN then socket_close h s else s
      | None \<Rightarrow> s)"

text \<open>
  \<^verbatim>\<open>createSubscription\<close>, lines 323-343. \<open>newId\<close> is the string \<^verbatim>\<open>this.createId()\<close> returns,
  thirty characters drawn with \<^verbatim>\<open>Math.random\<close>; \<open>buildSubscription\<close> is the record the
  method has built when it calls \<^verbatim>\<open>subscribe\<close>.
\<close>

definition buildSubscription ::
  "string \<Rightarrow> EventType \<Rightarrow> EventFilter option \<Rightarrow> int option \<Rightarrow> EventSubscription" where
  "buildSubscription newId eventType filter' parameters =
     (let subscription = \<lparr>sub_subscribe = eventType, sub_id = newId, sub_line = None,
                           sub_location = None, sub_parameters = None\<rparr>;
          subscription1 = (case filter' of
                 None \<Rightarrow> subscription
               | Some f \<Rightarrow>
                   let a = (case line f of
                              Some n \<Rightarrow> subscription\<lparr>sub_line := Some n\<rparr>
                            | None \<Rightarrow> subscription)
                   in (case location f of
                         Some n \<Rightarrow> a\<lparr>sub_location := Some n\<rparr>
                       | None \<Rightarrow> a))
      in case parameters of
           Some n \<Rightarrow> subscription1\<lparr>sub_parameters := Some n\<rparr>
         | None \<Rightarrow> subscription1)"

definition createSubscription ::
  "state \<Rightarrow> string \<Rightarrow> EventType \<Rightarrow> callback \<Rightarrow> EventFilter option \<Rightarrow> int option
     \<Rightarrow> outcome \<times> state" where
  "createSubscription s newId eventType callback filter' parameters =
     subscribe s (buildSubscription newId eventType filter' parameters) callback"

text \<open>The public methods, lines 397-607, one for each event category.\<close>

definition onTicketCreated :: "state \<Rightarrow> string \<Rightarrow> callback \<Rightarrow> EventFilter option \<Rightarrow> outcome \<times> state" where
  "onTicketCreated s newId callback filter' =
     createSubscription s newId TICKET_CREATED callback filter' None"

definition onTicketCalled :: "state \<Rightarrow> string \<Rightarrow> callback \<Rightarrow> EventFilter option \<Rightarrow> outcome \<times> state" where
  "onTicketCalled s newId callback filter' =
     createSubscription s newId TICKET_CALLED callback filter' None"

definition onTicketRecalled :: "state \<Rightarrow> string \<Rightarrow> callback \<Rightarrow> EventFilter option \<Rightarrow> outcome \<times> state" where
  "onTicketRecalled s newId callback filter' =
     createSubscription s newId TICKET_RECALLED callback filter' None"

definition onTicketCancelled :: "state \<Rightarrow> string \<Rightarrow> callback \<Rightarrow> EventFilter option \<Rightarrow> outcome \<times> state" where
  "onTicketCancelled s newId callback filter' =
     createSubscription s newId TICKET_CANCELLED callback filter' None"

definition onTicketServed :: "state \<Rightarrow> string \<Rightarrow> callback \<Rightarrow> EventFilter option \<Rightarrow> outcome \<times> state" where
  "onTicketServed s newId callback filter' =
     createSubscription s newId TICKET_SERVED callback filter' None"

definition onTicketChanged :: "state \<Rightarrow> string \<Rightarrow> callback \<Rightarrow> EventFilter option \<Rightarrow> outcome \<times> state" where
  "onTicketChanged s newId callback filter' =
     createSubscription s newId TICKET_CHANGED callback filter' None"

definition onOverviewMonitorChanged :: "state \<Rightarrow> string \<Rightarrow> callback \<Rightarrow> int \<Rightarrow> outcome \<times> state" where
  "onOverviewMonitorChanged s newId callback n =
     createSubscription s newId OVERVIEW_MONITOR_CHANGE callback None (Some n)"

definition onSignInDeviceChanged :: "state \<Rightarrow> string \<Rightarrow> callback \<Rightarrow> int \<Rightarrow> outcome \<times> state" where
  "onSignInDeviceChanged s newId callback n =
     createSubscription s newId SIGN_IN_CHANGE callback None (Some n)"

definition onLinesChanged :: "state \<Rightarrow> string \<Rightarrow> callback \<Rightarrow> int \<Rightarrow> outcome \<times> state" where
  "onLinesChanged s newId callback n =
     createSubscription s newId LINES_CHANGED callback None (Some n)"

text \<open>
  \<^verbatim>\<open>onLocationChanged\<close>, lines 602-607: the one method that tests its \<^verbatim>\<open>id\<close> argument, so
  the argument is any value here.
\<close>

definition onLocationChanged :: "state \<Rightarrow> string \<Rightarrow> callback \<Rightarrow> jsvalue \<Rightarrow> outcome \<times> state" where
  "onLocationChanged s newId callback v =
     (if \<not> typeof_number v then (Threw MISSING_LOCATION_ID, s)
      else case v of
        Number n \<Rightarrow> createSubscription s newId LOCATION_CHANGE callback None (Some n)
      | _ \<Rightarrow> (Threw MISSING_LOCATION_ID, s))"

section \<open>The environment's signals\<close>

text \<open>
  What can happen to the service: a call of one of its methods, a signal of a socket it has
  constructed, or one of its timers firing. A socket signals "open" only while it is
  connecting, and "close" once, before it is closed; the platform sets the ready state
  before it runs the handler. A timer fires only while it is pending; the retry timer's
  function is \<^verbatim>\<open>this.openSocket.bind(this)\<close>, the ping interval's sends \<^verbatim>\<open>"PING"\<close>. An
  exception that leaves a handler ends the handler and nothing else. Which signal comes
  when is the environment's choice, so a run is any list of events.
\<close>

datatype event =
    Call_setKey string
  | Call_reset
  | Call_onConnect callback
  | Call_onDisconnect callback
  | Call_subscribe EventSubscription callback
  | Call_closeSocket
  | Signal_open nat
  | Signal_close nat nat
  | Timer_retry nat
  | Timer_ping nat

fun step :: "state \<Rightarrow> event \<Rightarrow> state" where
  "step s (Call_setKey k) = setKey s k"
| "step s Call_reset = reset s"
| "step s (Call_onConnect callback) = snd (onConnect s callback)"
| "step s (Call_onDisconnect callback) = snd (onDisconnect s callback)"
| "step s (Call_subscribe subscription callback) = snd (subscribe s subscription callback)"
| "step s Call_closeSocket = closeSocket s"
| "step s (Signal_open h) =
     (if readyStateOf s h = Some CONNECTING then snd (onopen (setReadyState h OPEN s)) else s)"
| "step s (Signal_close h code) =
     (if readyStateOf s h \<in> {Some CONNECTING, Some OPEN, Some CLOSING}
      then snd (onclose (setReadyState h CLOSED s) code) else s)"
| "step s (Timer_retry h) =
     (if h \<in> fst ` set (timeouts s) then snd (openSocket (clearTimeout h s)) else s)"
| "step s (Timer_ping h) =
     (if h \<in> fst ` set (intervals s) then snd (socket_send PING s) else s)"

definition run :: "event list \<Rightarrow> state \<Rightarrow> state" where
  "run evs s = foldl step s evs"

text \<open>The delay of the timeout whose handle \<^verbatim>\<open>this.retryTimeout\<close> holds, while it is pending.\<close>

definition scheduledRetry :: "state \<Rightarrow> nat option" where
  "scheduledRetry s =
     (case retryTimeout s of None \<Rightarrow> None | Some h \<Rightarrow> map_of (timeouts s) h)"

text \<open>
  Consecutive closes with the given codes and no open signal between them: after each
  close but the last, the retry timer it scheduled fires and calls \<^verbatim>\<open>openSocket\<close>, whose
  socket is the next to close.
\<close>

definition retryFires :: "state \<Rightarrow> state" where
  "retryFires s = (case retryTimeout s of Some h \<Rightarrow> step s (Timer_retry h) | None \<Rightarrow> s)"

fun abnormalCloses :: "nat list \<Rightarrow> state \<Rightarrow> state" where
  "abnormalCloses [] s = s"
| "abnormalCloses [code] s = snd (onclose s code)"
| "abnormalCloses (code # codes) s = abnormalCloses codes (retryFires (snd (onclose s code)))"

subsection \<open>The subscribe-style calls\<close>

text \<open>
  A call of one of the ten public subscribe methods, with arguments of the types their
  signatures declare, and a sequence of such calls, each with the identifier
  \<^verbatim>\<open>createId\<close> draws for it. \<open>performAll\<close> gives how each call ended and the state after
  the last.
\<close>

datatype apiCall =
    TicketCreated callback "EventFilter option"
  | TicketCalled callback "EventFilter option"
  | TicketRecalled callback "EventFilter option"
  | TicketCancelled callback "EventFilter option"
  | TicketServed callback "EventFilter option"
  | TicketChanged callback "EventFilter option"
  | OverviewMonitorChanged callback int
  | SignInDeviceChanged callback int
  | LinesChanged callback int
  | LocationChanged callback int

fun perform :: "state \<Rightarrow> string \<Rightarrow> apiCall \<Rightarrow> outcome \<times> state" where
  "perform s newId (TicketCreated callback filter') = onTicketCreated s newId callback filter'"
| "perform s newId (TicketCalled callback filter') = onTicketCalled s newId callback filter'"
| "perform s newId (TicketRecalled callback filter') = onTicketRecalled s newId callback filter'"
| "perform s newId (TicketCancelled callback filter') = onTicketCancelled s newId callback filter'"
| "perform s newId (TicketServed callback filter') = onTicketServed s newId callback filter'"
| "perform s newId (TicketChanged callback filter') = onTicketChanged s newId callback filter'"
| "perform s newId (OverviewMonitorChanged callback n) = onOverviewMonitorChanged s newId callback n"
| "perform s newId (SignInDeviceChanged callback n) = onSignInDeviceChanged s newId callback n"
| "perform s newId (LinesChanged callback n) = onLinesChanged s newId callback n"
| "perform s newId (LocationChanged callback n) = onLocationChanged s newId callback (Number n)"

fun performAll :: "state \<Rightarrow> (string \<times> apiCall) list \<Rightarrow> outcome list \<times> state" where
  "performAll s [] = ([], s)"
| "performAll s ((newId, c) # cs) =
     (case perform s newId c of
        (out, s') \<Rightarrow> (case performAll s' cs of (outs, s'') \<Rightarrow> (out # outs, s'')))"

subsection \<open>Vocabulary for the observer lists\<close>

text \<open>
  Whether calling a value throws, the record its call leaves in the trace, the observers
  of a list that a loop stopping at the first throw reaches, and how that loop ends.
\<close>

definition throws :: "callback \<Rightarrow> bool" where
  "throws c = (case c of Function l t \<Rightarrow> t | NotFunction \<Rightarrow> False)"

definition invocationOf :: "callback \<Rightarrow> invocation list" where
  "invocationOf c = (case c of Function l t \<Rightarrow> [Invoked l None] | NotFunction \<Rightarrow> [])"

definition reached :: "callback list \<Rightarrow> callback list" where
  "reached cbs =
     takeWhile (\<lambda>c. \<not> throws c) cbs @ take 1 (dropWhile (\<lambda>c. \<not> throws c) cbs)"

definition observersOutcome :: "callback list \<Rightarrow> outcome" where
  "observersOutcome cbs =
     (case dropWhile (\<lambda>c. \<not> throws c) cbs of
        [] \<Rightarrow> Returned
      | Function l t # rest \<Rightarrow> Threw (Thrown l)
      | NotFunction # rest \<Rightarrow> Returned)"

subsection \<open>The registry operation of the specification\<close>

text \<open>
  Section 4.2 of the specification, in its words: \<open>register(record)\<close> "inserts the record
  if no existing record shares its identifier; otherwise no-op", with insertion order
  preserved. It is what \<^verbatim>\<open>subscribe\<close> is compared with.
\<close>

definition register :: "EventSubscription list \<Rightarrow> EventSubscription \<Rightarrow> EventSubscription list" where
  "register reg r = (if sub_id r \<in> sub_id ` set reg then reg else reg @ [r])"

text \<open>A sequence of \<^verbatim>\<open>subscribe\<close> calls, each a record with the callback passed for it.\<close>

definition subscribeCalls :: "(EventSubscription \<times> callback) list \<Rightarrow> event list" where
  "subscribeCalls reqs = map (\<lambda>p. Call_subscribe (fst p) (snd p)) reqs"

subsection \<open>Example runs\<close>

text \<open>
  \<open>connectedOnce\<close>: a key is set, one subscription is made, the socket opens.
  \<open>staleSocket\<close>: from there \<^verbatim>\<open>reset()\<close> starts closing that socket, a second key is set, a
  new subscription constructs a second socket, and the second socket fails before the
  first one's close signal has arrived. \<open>twoObservers\<close>: two connect observers and two
  disconnect observers are registered, the first of each throwing, and a subscription
  constructs the socket. \<open>calmObservers\<close>: the same with no observer throwing.
\<close>

definition exampleSubscription :: "string \<Rightarrow> EventSubscription" where
  "exampleSubscription i =
     \<lparr>sub_subscribe = TICKET_CREATED, sub_id = i, sub_line = None, sub_location = None,
      sub_parameters = None\<rparr>"

definition connectedOnce :: state where
  "connectedOnce =
     run [Call_setKey ''key'', Call_subscribe (exampleSubscription ''a'') (Function 1 False),
          Signal_open 0] constructor"

definition staleSocket :: state where
  "staleSocket =
     run [Call_reset, Call_setKey ''other'',
          Call_subscribe (exampleSubscription ''b'') (Function 2 False),
          Signal_close 1 1006] connectedOnce"

definition twoObservers :: state where
  "twoObservers =
     run [Call_setKey ''key'',
          Call_onConnect (Function 1 True), Call_onConnect (Function 2 False),
          Call_onDisconnect (Function 3 True), Call_onDisconnect (Function 4 False),
          Call_subscribe (exampleSubscription ''a'') (Function 5 False)]
       constructor"

definition calmObservers :: state where
  "calmObservers =
     run [Call_setKey ''key'',
          Call_onConnect (Function 1 False), Call_onConnect (Function 2 False),
          Call_onDisconnect (Function 3 False), Call_onDisconnect (Function 4 False),
          Call_subscribe (exampleSubscription ''a'') (Function 5 False)]
       constructor"

section \<open>Shared lemmas\<close>

subsection \<open>The observer loop\<close>

lemma forEach_callObserver:
  "forEach callObserver cbs s =
     (observersOutcome cbs, s\<lparr>calls := calls s @ concat (map invocationOf (reached cbs))\<rparr>)"
proof (induction cbs arbitrary: s)
  case Nil
  show ?case by (simp add: reached_def observersOutcome_def)
next
  case (Cons c cbs)
  show ?case
  proof (cases c)
    case (Function l t)
    then show ?thesis
      using Cons.IH [of "s\<lparr>calls := calls s @ [Invoked l None]\<rparr>"]
      by (simp add: callObserver_def reached_def observersOutcome_def throws_def invocationOf_def)
  next
    case NotFunction
    then show ?thesis
      using Cons.IH [of s]
      by (simp add: callObserver_def reached_def observersOutcome_def throws_def invocationOf_def)
  qed
qed

lemma reached_no_throw:
  assumes "\<not> list_ex throws cbs"
  shows "reached cbs = cbs"
proof -
  from assms have a: "\<forall>c\<in>set cbs. \<not> throws c" by (simp add: list_ex_iff)
  then have t: "takeWhile (\<lambda>c. \<not> throws c) cbs = cbs"
    and d: "dropWhile (\<lambda>c. \<not> throws c) cbs = []"
    by simp_all
  show ?thesis unfolding reached_def by (simp only: t d take.simps append_Nil2)
qed

subsection \<open>The replay loop\<close>

lemma find_member: "m \<in> set xs \<Longrightarrow> find (\<lambda>sub. sub_id sub = sub_id m) xs \<noteq> None"
  by (auto simp: find_None_iff)

lemma subscribe_replay_one:
  "connected s \<Longrightarrow> socket s = Some h \<Longrightarrow> m \<in> set (subscriptions s) \<Longrightarrow>
   subscribe s m NotFunction = (Returned, s\<lparr>sent := sent s @ [(h, JSON_stringify m)]\<rparr>)"
  using find_member [of m "subscriptions s"]
  by (auto simp: subscribe_def socket_send_def)

lemma replay_all:
  "connected s \<Longrightarrow> socket s = Some h \<Longrightarrow> set ms \<subseteq> set (subscriptions s) \<Longrightarrow>
   forEach (\<lambda>message st. subscribe st message NotFunction) ms s =
     (Returned, s\<lparr>sent := sent s @ map (\<lambda>m. (h, JSON_stringify m)) ms\<rparr>)"
proof (induction ms arbitrary: s)
  case Nil
  show ?case by simp
next
  case (Cons m ms)
  let ?s' = "s\<lparr>sent := sent s @ [(h, JSON_stringify m)]\<rparr>"
  have one: "subscribe s m NotFunction = (Returned, ?s')"
    using Cons.prems by (simp add: subscribe_replay_one)
  have "forEach (\<lambda>message st. subscribe st message NotFunction) ms ?s' =
          (Returned, ?s'\<lparr>sent := sent ?s' @ map (\<lambda>m. (h, JSON_stringify m)) ms\<rparr>)"
    using Cons.prems by (intro Cons.IH) simp_all
  with one show ?case by simp
qed

subsection \<open>The handlers in closed form\<close>

lemma onclose_abnormal:
  assumes "code \<noteq> 1000"
  shows "onclose s code =
     (observersOutcome (onDisconnectCallbacks s),
      s\<lparr>connected := False, connecting := False, pingInterval := None,
        intervals := (case pingInterval s of Some h \<Rightarrow> filter (\<lambda>t. fst t \<noteq> h) (intervals s)
                      | None \<Rightarrow> intervals s),
        timeouts := (nextTimer s, min (5000 + connectionRetries s div 10 * 1000) 60000) #
                    (case retryTimeout s of Some h \<Rightarrow> filter (\<lambda>t. fst t \<noteq> h) (timeouts s)
                     | None \<Rightarrow> timeouts s),
        nextTimer := Suc (nextTimer s),
        retryTimeout := Some (nextTimer s),
        connectionRetries := connectionRetries s + 1,
        calls := calls s @ concat (map invocationOf (reached (onDisconnectCallbacks s)))\<rparr>)"
  using assms
  by (simp add: onclose_def forEach_callObserver clearInterval_def clearTimeout_def
      setTimeout_def Let_def split: option.splits)

lemma onclose_normal:
  "onclose s 1000 =
     (observersOutcome (onDisconnectCallbacks s),
      s\<lparr>connected := False, connecting := False, pingInterval := None,
        intervals := (case pingInterval s of Some h \<Rightarrow> filter (\<lambda>t. fst t \<noteq> h) (intervals s)
                      | None \<Rightarrow> intervals s),
        calls := calls s @ concat (map invocationOf (reached (onDisconnectCallbacks s)))\<rparr>)"
  by (simp add: onclose_def forEach_callObserver clearInterval_def Let_def split: option.splits)

lemma onopen_with_socket:
  assumes "socket s = Some h"
  shows "onopen s =
     (observersOutcome (onConnectCallbacks s),
      s\<lparr>connected := True, connectionRetries := 0,
        sent := sent s @ map (\<lambda>m. (h, JSON_stringify m)) (subscriptions s),
        intervals := (nextTimer s, 10000) # intervals s,
        nextTimer := Suc (nextTimer s),
        pingInterval := Some (nextTimer s),
        calls := calls s @ concat (map invocationOf (reached (onConnectCallbacks s)))\<rparr>)"
proof -
  let ?s1 = "s\<lparr>connected := True, connectionRetries := 0\<rparr>"
  have "forEach (\<lambda>message st. subscribe st message NotFunction) (subscriptions ?s1) ?s1 =
          (Returned, ?s1\<lparr>sent := sent ?s1 @ map (\<lambda>m. (h, JSON_stringify m)) (subscriptions ?s1)\<rparr>)"
    using assms by (intro replay_all) simp_all
  then show ?thesis
    by (simp add: onopen_def forEach_callObserver setInterval_def Let_def)
qed

lemma onopen_without_socket:
  assumes "socket s = None"
  shows "onopen s =
     (if subscriptions s = []
      then (observersOutcome (onConnectCallbacks s),
            s\<lparr>connected := True, connectionRetries := 0,
              intervals := (nextTimer s, 10000) # intervals s,
              nextTimer := Suc (nextTimer s),
              pingInterval := Some (nextTimer s),
              calls := calls s @ concat (map invocationOf (reached (onConnectCallbacks s)))\<rparr>)
      else (Threw TypeError, s\<lparr>connected := True, connectionRetries := 0\<rparr>))"
proof (cases "subscriptions s")
  case Nil
  then show ?thesis
    by (simp add: onopen_def forEach_callObserver setInterval_def Let_def)
next
  case (Cons m ms)
  let ?s1 = "s\<lparr>connected := True, connectionRetries := 0\<rparr>"
  have "m \<in> set (subscriptions ?s1)" using Cons by simp
  then have "subscribe ?s1 m NotFunction = (Threw TypeError, ?s1)"
    using assms find_member [of m "subscriptions ?s1"]
    by (auto simp: subscribe_def socket_send_def)
  then show ?thesis using Cons
    by (simp add: onopen_def Let_def)
qed

subsection \<open>The registry under the methods\<close>

lemma openSocket_subscriptions: "subscriptions (snd (openSocket s)) = subscriptions s"
  by (simp add: openSocket_def new_WebSocket_def clearTimeout_def Let_def split: option.splits)

lemma socket_send_subscriptions: "subscriptions (snd (socket_send m s)) = subscriptions s"
  by (simp add: socket_send_def split: option.splits)

lemma subscribe_subscriptions:
  "subscriptions (snd (subscribe s r cb)) = register (subscriptions s) r"
proof -
  have f: "(find (\<lambda>sub. sub_id sub = sub_id r) (subscriptions s) = None) =
           (sub_id r \<notin> sub_id ` set (subscriptions s))"
    by (force simp: find_None_iff image_iff)
  show ?thesis
    by (cases cb)
       (simp_all add: subscribe_def f openSocket_subscriptions socket_send_subscriptions
         register_def Let_def)
qed

lemma onopen_subscriptions: "subscriptions (snd (onopen s)) = subscriptions s"
proof (cases "socket s")
  case None
  then show ?thesis by (simp add: onopen_without_socket)
next
  case (Some h)
  then show ?thesis by (simp add: onopen_with_socket)
qed

lemma register_fresh:
  "distinct (map sub_id reg @ map sub_id rs) \<Longrightarrow> foldl register reg rs = reg @ rs"
proof (induction rs arbitrary: reg)
  case Nil
  show ?case by simp
next
  case (Cons r rs)
  have "register reg r = reg @ [r]"
    using Cons.prems by (auto simp: register_def)
  moreover have "distinct (map sub_id (reg @ [r]) @ map sub_id rs)"
    using Cons.prems by auto
  ultimately show ?case
    using Cons.IH [of "reg @ [r]"] by simp
qed

subsection \<open>Subscribing while the socket is connecting\<close>

lemma subscribe_while_connecting:
  assumes "connecting s" "\<not> connected s"
  shows "connecting (snd (subscribe s r cb)) \<and> \<not> connected (snd (subscribe s r cb))
       \<and> socket (snd (subscribe s r cb)) = socket s
       \<and> sockets (snd (subscribe s r cb)) = sockets s
       \<and> sent (snd (subscribe s r cb)) = sent s"
  using assms by (cases cb) (simp_all add: subscribe_def Let_def)

lemma subscribes_while_connecting:
  "connecting s \<Longrightarrow> \<not> connected s \<Longrightarrow>
   subscriptions (run (subscribeCalls reqs) s) = foldl register (subscriptions s) (map fst reqs)
   \<and> connecting (run (subscribeCalls reqs) s) \<and> \<not> connected (run (subscribeCalls reqs) s)
   \<and> socket (run (subscribeCalls reqs) s) = socket s
   \<and> sockets (run (subscribeCalls reqs) s) = sockets s
   \<and> sent (run (subscribeCalls reqs) s) = sent s"
proof (induction reqs arbitrary: s)
  case Nil
  then show ?case by (simp add: run_def subscribeCalls_def)
next
  case (Cons p reqs)
  let ?s' = "snd (subscribe s (fst p) (snd p))"
  have reg: "subscriptions ?s' = register (subscriptions s) (fst p)"
    by (simp add: subscribe_subscriptions)
  have keep: "connecting ?s' \<and> \<not> connected ?s' \<and> socket ?s' = socket s
       \<and> sockets ?s' = sockets s \<and> sent ?s' = sent s"
    using subscribe_while_connecting [OF Cons.prems(1,2)] by simp
  have r: "run (subscribeCalls (p # reqs)) s = run (subscribeCalls reqs) ?s'"
    by (simp add: run_def subscribeCalls_def)
  from Cons.IH [of ?s'] keep reg show ?case
    by (simp add: r)
qed

lemma first_subscribe:
  assumes "k \<noteq> []"
  shows "subscriptions (snd (subscribe (setKey constructor k) r cb)) = [r]
       \<and> connecting (snd (subscribe (setKey constructor k) r cb))
       \<and> \<not> connected (snd (subscribe (setKey constructor k) r cb))
       \<and> socket (snd (subscribe (setKey constructor k) r cb)) = Some 0
       \<and> readyStateOf (snd (subscribe (setKey constructor k) r cb)) 0 = Some CONNECTING
       \<and> sent (snd (subscribe (setKey constructor k) r cb)) = []"
  using assms
  by (cases cb)
     (simp_all add: subscribe_def openSocket_def new_WebSocket_def setKey_def constructor_def
       reset_def readyStateOf_def Let_def)

lemma readyStateOf_cong: "sockets s = sockets s' \<Longrightarrow> readyStateOf s h = readyStateOf s' h"
  by (simp add: readyStateOf_def)

lemma open_signal_sent:
  assumes "readyStateOf s h = Some CONNECTING" and "socket s = Some h"
  shows "sent (step s (Signal_open h)) =
           sent s @ map (\<lambda>r. (h, JSON_stringify r)) (subscriptions s)"
proof -
  have "socket (setReadyState h OPEN s) = Some h"
    using assms(2) by (simp add: setReadyState_def)
  then have "sent (snd (onopen (setReadyState h OPEN s))) =
      sent (setReadyState h OPEN s) @
      map (\<lambda>r. (h, JSON_stringify r)) (subscriptions (setReadyState h OPEN s))"
    by (simp add: onopen_with_socket)
  then show ?thesis
    using assms(1) by (simp add: setReadyState_def)
qed

subsection \<open>The retry counter\<close>

lemma retryFires_counter: "connectionRetries (retryFires s) = connectionRetries s"
  by (simp add: retryFires_def openSocket_def clearTimeout_def new_WebSocket_def Let_def
      split: option.splits)

lemma abnormalCloses_counter:
  "codes \<noteq> [] \<Longrightarrow> list_all (\<lambda>c. c \<noteq> 1000) codes \<Longrightarrow>
   connectionRetries (abnormalCloses codes s) = connectionRetries s + length codes
   \<and> scheduledRetry (abnormalCloses codes s) =
       Some (min (5000 + (connectionRetries s + length codes - 1) div 10 * 1000) 60000)"
proof (induction codes s rule: abnormalCloses.induct)
  case (1 s)
  then show ?case by simp
next
  case (2 code s)
  then show ?case by (simp add: onclose_abnormal scheduledRetry_def)
next
  case (3 code c2 codes s)
  let ?s' = "retryFires (snd (onclose s code))"
  have c: "code \<noteq> 1000" and rest: "list_all (\<lambda>c. c \<noteq> 1000) (c2 # codes)"
    using "3.prems" by simp_all
  have n: "connectionRetries ?s' = connectionRetries s + 1"
    using c by (simp add: onclose_abnormal retryFires_counter)
  have "connectionRetries (abnormalCloses (c2 # codes) ?s') =
          connectionRetries ?s' + length (c2 # codes)
        \<and> scheduledRetry (abnormalCloses (c2 # codes) ?s') =
          Some (min (5000 + (connectionRetries ?s' + length (c2 # codes) - 1) div 10 * 1000) 60000)"
    using rest by (intro "3.IH") simp_all
  then show ?case
    by (simp only: abnormalCloses.simps n) simp
qed

lemma onopen_counter: "connectionRetries (snd (onopen s)) = 0"
proof (cases "socket s")
  case None
  then show ?thesis by (simp add: onopen_without_socket)
next
  case (Some h)
  then show ?thesis by (simp add: onopen_with_socket)
qed

lemma reset_counter: "connectionRetries (reset s) = 0"
  by (simp add: reset_def Let_def)

subsection \<open>Subscribing without a key\<close>

lemma subscribe_no_key:
  assumes "apiKey s = []" "\<not> connected s" "\<not> connecting s"
  shows "fst (subscribe s r cb) = Threw MISSING_API_KEY
       \<and> apiKey (snd (subscribe s r cb)) = []
       \<and> \<not> connected (snd (subscribe s r cb))
       \<and> \<not> connecting (snd (subscribe s r cb))
       \<and> sockets (snd (subscribe s r cb)) = sockets s"
  using assms by (cases cb) (simp_all add: subscribe_def openSocket_def Let_def)

lemma perform_no_key:
  assumes "apiKey s = []" "\<not> connected s" "\<not> connecting s"
  shows "fst (perform s newId c) = Threw MISSING_API_KEY
       \<and> apiKey (snd (perform s newId c)) = []
       \<and> \<not> connected (snd (perform s newId c))
       \<and> \<not> connecting (snd (perform s newId c))
       \<and> sockets (snd (perform s newId c)) = sockets s"
  using subscribe_no_key [OF assms]
  by (cases c)
     (simp_all add: onTicketCreated_def onTicketCalled_def onTicketRecalled_def
       onTicketCancelled_def onTicketServed_def onTicketChanged_def
       onOverviewMonitorChanged_def onSignInDeviceChanged_def onLinesChanged_def
       onLocationChanged_def createSubscription_def)

lemma performAll_no_key:
  "apiKey s = [] \<Longrightarrow> \<not> connected s \<Longrightarrow> \<not> connecting s \<Longrightarrow>
   fst (performAll s cs) = replicate (length cs) (Threw MISSING_API_KEY)
   \<and> sockets (snd (performAll s cs)) = sockets s"
proof (induction cs arbitrary: s)
  case Nil
  show ?case by simp
next
  case (Cons p cs)
  obtain newId c where p: "p = (newId, c)" by (cases p)
  obtain out s' where r: "perform s newId c = (out, s')" by (cases "perform s newId c")
  from perform_no_key [OF Cons.prems, of newId c] r
  have out: "out = Threw MISSING_API_KEY"
    and inv: "apiKey s' = []" "\<not> connected s'" "\<not> connecting s'"
    and so: "sockets s' = sockets s" by simp_all
  from Cons.IH [OF inv] p r out so show ?case
    by (auto split: prod.splits)
qed

lemma reset_flags: "apiKey (reset s) = [] \<and> \<not> connected (reset s) \<and> \<not> connecting (reset s)"
  by (simp add: reset_def clearTimeout_def clearInterval_def socket_close_def setReadyState_def
      Let_def split: option.splits)

subsection \<open>The example runs, evaluated\<close>

lemma connectedOnce_eq:
  "connectedOnce =
    \<lparr>apiKey = ''key'', apiServer = ''wss://api.qminder.com:443'', socket = Some 0,
     connecting = True, connected = True, retryTimeout = None, pingInterval = Some 1,
     subscriptions = [exampleSubscription ''a''],
     connectionRetries = 0, subscriptionCallbackMap = [(''a'', Function 1 False)],
     onConnectCallbacks = [], onDisconnectCallbacks = [],
     sockets = [\<lparr>url = ''wss://api.qminder.com:443/events?rest-api-key=key'',
                 readyState = OPEN\<rparr>],
     timeouts = [], intervals = [(1, 10000)], nextTimer = 2,
     sent = [(0, JSON_stringify (exampleSubscription ''a''))], calls = []\<rparr>"
  by (simp add: connectedOnce_def run_def constructor_def reset_def setKey_def
      subscribe_def openSocket_def new_WebSocket_def Let_def readyStateOf_def setReadyState_def
      onopen_with_socket exampleSubscription_def reached_def)

lemma staleSocket_eq:
  "staleSocket =
    \<lparr>apiKey = ''other'', apiServer = ''wss://api.qminder.com:443'', socket = Some 1,
     connecting = False, connected = False, retryTimeout = Some 2, pingInterval = None,
     subscriptions = [exampleSubscription ''b''],
     connectionRetries = 1, subscriptionCallbackMap = [(''b'', Function 2 False)],
     onConnectCallbacks = [], onDisconnectCallbacks = [],
     sockets = [\<lparr>url = ''wss://api.qminder.com:443/events?rest-api-key=key'',
                 readyState = CLOSING\<rparr>,
                \<lparr>url = ''wss://api.qminder.com:443/events?rest-api-key=other'',
                 readyState = CLOSED\<rparr>],
     timeouts = [(2, 5000)], intervals = [], nextTimer = 3,
     sent = [(0, JSON_stringify (exampleSubscription ''a''))], calls = []\<rparr>"
  by (simp add: staleSocket_def connectedOnce_eq run_def reset_def setKey_def
      subscribe_def openSocket_def new_WebSocket_def Let_def readyStateOf_def setReadyState_def
      socket_close_def clearInterval_def onclose_abnormal exampleSubscription_def reached_def)

lemma twoObservers_eq:
  "twoObservers =
    \<lparr>apiKey = ''key'', apiServer = ''wss://api.qminder.com:443'', socket = Some 0,
     connecting = True, connected = False, retryTimeout = None, pingInterval = None,
     subscriptions = [exampleSubscription ''a''],
     connectionRetries = 0, subscriptionCallbackMap = [(''a'', Function 5 False)],
     onConnectCallbacks = [Function 1 True, Function 2 False],
     onDisconnectCallbacks = [Function 3 True, Function 4 False],
     sockets = [\<lparr>url = ''wss://api.qminder.com:443/events?rest-api-key=key'',
                 readyState = CONNECTING\<rparr>],
     timeouts = [], intervals = [], nextTimer = 1, sent = [], calls = []\<rparr>"
  by (simp add: twoObservers_def run_def constructor_def reset_def setKey_def onConnect_def
      onDisconnect_def subscribe_def openSocket_def new_WebSocket_def Let_def
      exampleSubscription_def)

lemma calmObservers_eq:
  "calmObservers =
    \<lparr>apiKey = ''key'', apiServer = ''wss://api.qminder.com:443'', socket = Some 0,
     connecting = True, connected = False, retryTimeout = None, pingInterval = None,
     subscriptions = [exampleSubscription ''a''],
     connectionRetries = 0, subscriptionCallbackMap = [(''a'', Function 5 False)],
     onConnectCallbacks = [Function 1 False, Function 2 False],
     onDisconnectCallbacks = [Function 3 False, Function 4 False],
     sockets = [\<lparr>url = ''wss://api.qminder.com:443/events?rest-api-key=key'',
                 readyState = CONNECTING\<rparr>],
     timeouts = [], intervals = [], nextTimer = 1, sent = [], calls = []\<rparr>"
  by (simp add: calmObservers_def run_def constructor_def reset_def setKey_def onConnect_def
      onDisconnect_def subscribe_def openSocket_def new_WebSocket_def Let_def
      exampleSubscription_def)

section \<open>Properties\<close>

subsection \<open>The retry delay\<close>

text \<open>
  C1. The close handler computes the delay from \<^verbatim>\<open>connectionRetries\<close> and increments the
  counter afterwards. So, counting from a counter of zero (every open signal and
  \<^verbatim>\<open>reset()\<close>, hence the constructor, set it to zero), after \<open>N \<ge> 1\<close> consecutive closes
  with a code other than 1000, each but the last followed by the retry it scheduled, the
  delay scheduled before the next attempt is \<open>min (5000 + 1000 * ((N - 1) div 10)) 60000\<close>
  milliseconds. With \<open>N div 10\<close> in place of \<open>(N - 1) div 10\<close> the statement is false:
  after ten closes the delay is 5000, not 6000.
\<close>

theorem retry_delay_after_closes:
  assumes "connectionRetries s = 0" and "codes \<noteq> []" and "list_all (\<lambda>c. c \<noteq> 1000) codes"
  shows "scheduledRetry (abnormalCloses codes s) =
           Some (min (5000 + 1000 * ((length codes - 1) div 10)) 60000)
       \<and> connectionRetries (snd (onopen s0)) = 0
       \<and> connectionRetries (reset s0) = 0"
  using abnormalCloses_counter [OF assms(2,3), of s] assms(1)
  by (simp add: mult.commute onopen_counter reset_counter)

theorem retry_delay_after_closes_witness:
  "connectionRetries connectedOnce = 0 \<and> [1006, 1001, 1006] \<noteq> ([]::nat list)
   \<and> list_all (\<lambda>c. c \<noteq> 1000) [1006, 1001, 1006::nat]
   \<and> scheduledRetry (abnormalCloses [1006, 1001, 1006] connectedOnce) = Some 5000"
proof -
  have a: "connectionRetries connectedOnce = 0" by (simp add: connectedOnce_eq)
  have b: "[1006, 1001, 1006] \<noteq> ([]::nat list)" by simp
  have c: "list_all (\<lambda>c. c \<noteq> 1000) [1006, 1001, 1006::nat]" by simp
  from retry_delay_after_closes [OF a b c] a b c show ?thesis by simp
qed

theorem retry_delay_counterexample:
  "scheduledRetry (abnormalCloses (replicate 10 1006) connectedOnce) = Some 5000
   \<and> scheduledRetry (abnormalCloses (replicate 10 1006) connectedOnce) \<noteq>
       Some (min (5000 + 1000 * (10 div 10)) 60000)"
proof -
  have "scheduledRetry (abnormalCloses (replicate 10 1006) connectedOnce) =
          Some (min (5000 + (connectionRetries connectedOnce +
                  length (replicate 10 (1006::nat)) - 1) div 10 * 1000) 60000)"
    using abnormalCloses_counter [of "replicate 10 1006" connectedOnce]
    by (simp add: list_all_iff)
  then show ?thesis by (simp add: connectedOnce_eq)
qed

subsection \<open>The observers\<close>

text \<open>
  C2. The guard around each observer is the test \<^verbatim>\<open>typeof each === 'function'\<close>; nothing
  catches what an observer throws. When the socket opens (closes), the connect
  (disconnect) observers are called in the order of their registration up to and including
  the first that throws; its exception leaves the handler, and the observers after it
  are not called. When none throws, every one of them is called. In the run
  \<open>twoObservers\<close> the second observer of each list is never called.
\<close>

theorem observers_until_first_throw:
  assumes "socket s = Some h"
  shows "fst (onopen s) = observersOutcome (onConnectCallbacks s)
       \<and> calls (snd (onopen s)) =
           calls s @ concat (map invocationOf (reached (onConnectCallbacks s)))
       \<and> fst (onclose s code) = observersOutcome (onDisconnectCallbacks s)
       \<and> calls (snd (onclose s code)) =
           calls s @ concat (map invocationOf (reached (onDisconnectCallbacks s)))
       \<and> (\<not> list_ex throws (onConnectCallbacks s) \<longrightarrow>
            reached (onConnectCallbacks s) = onConnectCallbacks s)
       \<and> (\<not> list_ex throws (onDisconnectCallbacks s) \<longrightarrow>
            reached (onDisconnectCallbacks s) = onDisconnectCallbacks s)"
proof -
  have "calls (snd (onclose s code)) =
          calls s @ concat (map invocationOf (reached (onDisconnectCallbacks s)))
        \<and> fst (onclose s code) = observersOutcome (onDisconnectCallbacks s)"
    by (cases "code = 1000") (simp_all add: onclose_normal onclose_abnormal)
  then show ?thesis
    using assms by (simp add: onopen_with_socket reached_no_throw)
qed

theorem observers_until_first_throw_witness:
  "socket twoObservers = Some 0
   \<and> fst (onopen twoObservers) = Threw (Thrown 1)
   \<and> calls (snd (onopen twoObservers)) = [Invoked 1 None]
   \<and> fst (onclose twoObservers 1000) = Threw (Thrown 3)
   \<and> calls (snd (onclose twoObservers 1000)) = [Invoked 3 None]
   \<and> socket calmObservers = Some 0
   \<and> \<not> list_ex throws (onConnectCallbacks calmObservers)
   \<and> \<not> list_ex throws (onDisconnectCallbacks calmObservers)
   \<and> fst (onopen calmObservers) = Returned
   \<and> calls (snd (onopen calmObservers)) = [Invoked 1 None, Invoked 2 None]
   \<and> fst (onclose calmObservers 1006) = Returned
   \<and> calls (snd (onclose calmObservers 1006)) = [Invoked 3 None, Invoked 4 None]"
proof -
  have h: "socket twoObservers = Some 0" by (simp add: twoObservers_eq)
  have g: "socket calmObservers = Some 0" by (simp add: calmObservers_eq)
  have n: "\<not> list_ex throws (onConnectCallbacks calmObservers)"
    "\<not> list_ex throws (onDisconnectCallbacks calmObservers)"
    by (simp_all add: calmObservers_eq throws_def)
  from observers_until_first_throw [OF h, of 1000] observers_until_first_throw [OF g, of 1006]
    h g n
  show ?thesis
    by (simp add: twoObservers_eq calmObservers_eq reached_def throws_def invocationOf_def
        observersOutcome_def)
qed

theorem observer_throw_counterexample:
  "calls (step twoObservers (Signal_open 0)) = [Invoked 1 None]
   \<and> Invoked 2 None \<notin> set (calls (step twoObservers (Signal_open 0)))
   \<and> calls (step twoObservers (Signal_close 0 1006)) = [Invoked 3 None]
   \<and> Invoked 4 None \<notin> set (calls (step twoObservers (Signal_close 0 1006)))"
  by (simp add: twoObservers_eq readyStateOf_def setReadyState_def onopen_with_socket
      onclose_abnormal reached_def throws_def invocationOf_def)

subsection \<open>Replay on open\<close>

text \<open>
  C3. From the constructed service with a key set, after any non-empty sequence of
  \<^verbatim>\<open>subscribe\<close> calls (whatever their records and callbacks) the registry holds the records
  in the order they were registered, nothing has been sent, and the one socket is
  connecting. When that socket signals open, exactly the records of the registry are sent
  on it, in registry order, each as \<^verbatim>\<open>JSON.stringify\<close> of the record itself, so with the
  identifier it was registered with. When the calls carry distinct identifiers the
  registry is the sequence of their records. The same holds of the open handler in any
  state that has a socket: it sends the registry, in order, and nothing else.
\<close>

theorem replay_on_open:
  assumes "k \<noteq> []" and "reqs \<noteq> []"
  shows "subscriptions (run (Call_setKey k # subscribeCalls reqs) constructor) =
           foldl register [] (map fst reqs)
       \<and> sent (run (Call_setKey k # subscribeCalls reqs) constructor) = []
       \<and> readyStateOf (run (Call_setKey k # subscribeCalls reqs) constructor) 0 =
           Some CONNECTING
       \<and> sent (step (run (Call_setKey k # subscribeCalls reqs) constructor) (Signal_open 0)) =
           map (\<lambda>r. (0, JSON_stringify r)) (foldl register [] (map fst reqs))
       \<and> (distinct (map (\<lambda>p. sub_id (fst p)) reqs) \<longrightarrow>
            foldl register [] (map fst reqs) = map fst reqs)
       \<and> (socket s' = Some h \<longrightarrow>
            sent (snd (onopen s')) =
              sent s' @ map (\<lambda>r. (h, JSON_stringify r)) (subscriptions s'))"
proof -
  obtain p rest where reqs: "reqs = p # rest" using assms(2) by (cases reqs) auto
  define s1 where "s1 = snd (subscribe (setKey constructor k) (fst p) (snd p))"
  define s where "s = run (Call_setKey k # subscribeCalls reqs) constructor"
  have f: "subscriptions s1 = [fst p]" "connecting s1" "\<not> connected s1" "socket s1 = Some 0"
       "readyStateOf s1 0 = Some CONNECTING" "sent s1 = []"
    using first_subscribe [OF assms(1), of "fst p" "snd p"] by (simp_all add: s1_def)
  have r: "s = run (subscribeCalls rest) s1"
    by (simp add: s_def s1_def run_def subscribeCalls_def reqs)
  note w = subscribes_while_connecting [OF f(2) f(3), of rest]
  have g1: "subscriptions s = foldl register [] (map fst reqs)"
    using w f(1) by (simp add: r reqs register_def)
  have g2: "socket s = Some 0" using w f(4) by (simp add: r)
  have g3: "sent s = []" using w f(6) by (simp add: r)
  have "sockets s = sockets s1" using w by (simp add: r)
  then have g4: "readyStateOf s 0 = Some CONNECTING"
    using f(5) readyStateOf_cong [of s s1 0] by simp
  have o: "sent (step s (Signal_open 0)) =
             map (\<lambda>r. (0, JSON_stringify r)) (foldl register [] (map fst reqs))"
    using open_signal_sent [OF g4 g2] g1 g3 by simp
  have d: "distinct (map (\<lambda>p. sub_id (fst p)) reqs) \<longrightarrow>
             foldl register [] (map fst reqs) = map fst reqs"
    using register_fresh [of "[]" "map fst reqs"] by (simp add: comp_def)
  have gen: "socket s' = Some h \<longrightarrow>
             sent (snd (onopen s')) =
               sent s' @ map (\<lambda>r. (h, JSON_stringify r)) (subscriptions s')"
    by (simp add: onopen_with_socket)
  show ?thesis
    using g1 g3 g4 o d gen unfolding s_def by blast
qed

theorem replay_on_open_witness:
  "''key'' \<noteq> []
   \<and> [(exampleSubscription ''a'', Function 1 False), (exampleSubscription ''b'', NotFunction)]
       \<noteq> []
   \<and> distinct (map (\<lambda>p. sub_id (fst p))
       [(exampleSubscription ''a'', Function 1 False), (exampleSubscription ''b'', NotFunction)])
   \<and> subscriptions (run (Call_setKey ''key'' # subscribeCalls
        [(exampleSubscription ''a'', Function 1 False), (exampleSubscription ''b'', NotFunction)])
        constructor) =
       [exampleSubscription ''a'', exampleSubscription ''b'']
   \<and> sent (step (run (Call_setKey ''key'' # subscribeCalls
        [(exampleSubscription ''a'', Function 1 False), (exampleSubscription ''b'', NotFunction)])
        constructor) (Signal_open 0)) =
       [(0, JSON_stringify (exampleSubscription ''a'')),
        (0, JSON_stringify (exampleSubscription ''b''))]
   \<and> socket calmObservers = Some 0
   \<and> sent (snd (onopen calmObservers)) = [(0, JSON_stringify (exampleSubscription ''a''))]"
proof -
  let ?reqs = "[(exampleSubscription ''a'', Function 1 False),
                (exampleSubscription ''b'', NotFunction)]"
  let ?s = "run (Call_setKey ''key'' # subscribeCalls ?reqs) constructor"
  have a: "''key'' \<noteq> []" by simp
  have b: "?reqs \<noteq> []" by simp
  have d: "distinct (map (\<lambda>p. sub_id (fst p)) ?reqs)"
    by (simp add: exampleSubscription_def)
  have m: "map fst ?reqs = [exampleSubscription ''a'', exampleSubscription ''b'']"
    by simp
  have c: "socket calmObservers = Some 0" by (simp add: calmObservers_eq)
  note t = replay_on_open [OF a b, of calmObservers 0]
  from t d have e0: "foldl register [] (map fst ?reqs) = map fst ?reqs"
    by blast
  note e = e0 [unfolded m]
  from t have "subscriptions ?s = foldl register [] (map fst ?reqs)"
    by blast
  then have r: "subscriptions ?s = [exampleSubscription ''a'', exampleSubscription ''b'']"
    by (simp only: m e)
  from t have "sent (step ?s (Signal_open 0)) =
          map (\<lambda>r. (0, JSON_stringify r)) (foldl register [] (map fst ?reqs))"
    by blast
  then have "sent (step ?s (Signal_open 0)) =
          map (\<lambda>r. (0, JSON_stringify r)) [exampleSubscription ''a'', exampleSubscription ''b'']"
    by (simp only: m e)
  then have o: "sent (step ?s (Signal_open 0)) =
          [(0, JSON_stringify (exampleSubscription ''a'')),
           (0, JSON_stringify (exampleSubscription ''b''))]"
    by (simp only: list.map)
  from t c have "sent (snd (onopen calmObservers)) =
          sent calmObservers @
          map (\<lambda>r. (0, JSON_stringify r)) (subscriptions calmObservers)"
    by blast
  then have g: "sent (snd (onopen calmObservers)) =
          [(0, JSON_stringify (exampleSubscription ''a''))]"
    by (simp add: calmObservers_eq)
  from a b d r o c g show ?thesis by blast
qed

subsection \<open>Normal closure\<close>

text \<open>
  C4. For every state, the close handler run with code 1000 schedules no timeout and
  leaves the retry counter as it was; it leaves the service neither connected nor
  connecting, with \<^verbatim>\<open>pingInterval\<close> null and the interval it held cancelled. It does not
  touch the pending timeouts: the timeouts pending afterwards are those pending before,
  so none is pending afterwards when none was pending before. In the run \<open>staleSocket\<close>
  the first socket, which \<^verbatim>\<open>reset()\<close> started closing, signals its close with code 1000
  while the retry scheduled by the second socket's failure is pending, and that retry
  remains pending.
\<close>

theorem normal_close:
  "\<not> connected (snd (onclose s 1000)) \<and> \<not> connecting (snd (onclose s 1000))
   \<and> pingInterval (snd (onclose s 1000)) = None
   \<and> intervals (snd (onclose s 1000)) =
       (case pingInterval s of Some h \<Rightarrow> filter (\<lambda>t. fst t \<noteq> h) (intervals s)
        | None \<Rightarrow> intervals s)
   \<and> connectionRetries (snd (onclose s 1000)) = connectionRetries s
   \<and> retryTimeout (snd (onclose s 1000)) = retryTimeout s
   \<and> timeouts (snd (onclose s 1000)) = timeouts s
   \<and> nextTimer (snd (onclose s 1000)) = nextTimer s
   \<and> sockets (snd (onclose s 1000)) = sockets s"
  by (simp add: onclose_normal)

theorem normal_close_witness:
  "\<not> connected (snd (onclose connectedOnce 1000))
   \<and> \<not> connecting (snd (onclose connectedOnce 1000))
   \<and> pingInterval (snd (onclose connectedOnce 1000)) = None
   \<and> intervals (snd (onclose connectedOnce 1000)) = []
   \<and> connectionRetries (snd (onclose connectedOnce 1000)) = 0
   \<and> retryTimeout (snd (onclose connectedOnce 1000)) = None
   \<and> timeouts (snd (onclose connectedOnce 1000)) = []"
  using normal_close [of connectedOnce] by (simp add: connectedOnce_eq)

theorem normal_close_counterexample:
  "readyStateOf staleSocket 0 = Some CLOSING
   \<and> timeouts (step staleSocket (Signal_close 0 1000)) = [(2, 5000)]
   \<and> scheduledRetry (step staleSocket (Signal_close 0 1000)) = Some 5000
   \<and> \<not> connected (step staleSocket (Signal_close 0 1000))
   \<and> \<not> connecting (step staleSocket (Signal_close 0 1000))"
  by (simp add: staleSocket_eq readyStateOf_def setReadyState_def onclose_normal
      scheduledRetry_def)

subsection \<open>The scoping fields of a record\<close>

text \<open>
  C5. \<^verbatim>\<open>createSubscription\<close> copies the filter's \<^verbatim>\<open>line\<close> and its \<^verbatim>\<open>location\<close> by two
  independent tests, and passes the record to \<^verbatim>\<open>subscribe\<close>. The record carries a line
  identifier exactly when the filter has one and a location identifier exactly when the
  filter has one: both when the filter has both, none without a filter. A call of
  \<^verbatim>\<open>onTicketCreated\<close> with the filter \<^verbatim>\<open>{ line: 1, location: 2 }\<close> registers a record with
  both.
\<close>

theorem buildSubscription_scope:
  "sub_line (buildSubscription newId eventType filter' parameters) =
     (case filter' of None \<Rightarrow> None | Some f \<Rightarrow> line f)
   \<and> sub_location (buildSubscription newId eventType filter' parameters) =
     (case filter' of None \<Rightarrow> None | Some f \<Rightarrow> location f)
   \<and> createSubscription s newId eventType callback filter' parameters =
       subscribe s (buildSubscription newId eventType filter' parameters) callback"
  by (simp add: buildSubscription_def createSubscription_def Let_def split: option.splits)

theorem buildSubscription_scope_witness:
  "sub_line (buildSubscription ''a'' TICKET_CALLED
       (Some \<lparr>line = Some 7, location = None\<rparr>) None) = Some 7
   \<and> sub_location (buildSubscription ''a'' TICKET_CALLED
       (Some \<lparr>line = Some 7, location = None\<rparr>) None) = None"
  using buildSubscription_scope
    [of "''a''" TICKET_CALLED "Some \<lparr>line = Some 7, location = None\<rparr>" None]
  by simp

theorem both_scopes_counterexample:
  "subscriptions (snd (onTicketCreated (setKey constructor ''key'') ''a'' (Function 1 False)
       (Some \<lparr>line = Some 1, location = Some 2\<rparr>))) =
     [\<lparr>sub_subscribe = TICKET_CREATED, sub_id = ''a'', sub_line = Some 1,
       sub_location = Some 2, sub_parameters = None\<rparr>]"
  by (simp add: onTicketCreated_def createSubscription_def buildSubscription_def
      subscribe_subscriptions register_def setKey_def constructor_def reset_def)

subsection \<open>Opening without a credential\<close>

text \<open>
  C6. In every state, \<^verbatim>\<open>openSocket\<close> called while the API key is empty throws the
  missing-key error to its caller and returns the state it was given: no socket is
  constructed, and the registry, the callback map, the timers, the retry counter and the
  connection flags are what they were.
\<close>

theorem openSocket_without_key:
  assumes "apiKey s = []"
  shows "openSocket s = (Threw MISSING_API_KEY, s)"
  using assms by (simp add: openSocket_def)

theorem openSocket_without_key_witness:
  "apiKey constructor = [] \<and> openSocket constructor = (Threw MISSING_API_KEY, constructor)"
proof -
  have k: "apiKey constructor = []"
    by (simp add: constructor_def reset_def)
  from openSocket_without_key [OF k] k show ?thesis by simp
qed

subsection \<open>The mandatory location id\<close>

text \<open>
  C7. For every \<^verbatim>\<open>id\<close> argument whose \<^verbatim>\<open>typeof\<close> is not \<^verbatim>\<open>'number'\<close> (a missing argument
  is \<^verbatim>\<open>undefined\<close>), \<^verbatim>\<open>onLocationChanged\<close> throws its usage error and returns the state it
  was given: no record is registered and no frame is sent.
\<close>

theorem onLocationChanged_without_number:
  assumes "\<not> typeof_number v"
  shows "onLocationChanged s newId callback v = (Threw MISSING_LOCATION_ID, s)
       \<and> subscriptions (snd (onLocationChanged s newId callback v)) = subscriptions s
       \<and> sent (snd (onLocationChanged s newId callback v)) = sent s"
  using assms by (simp add: onLocationChanged_def)

theorem onLocationChanged_without_number_witness:
  "\<not> typeof_number Undefined
   \<and> onLocationChanged constructor ''a'' (Function 1 False) Undefined =
       (Threw MISSING_LOCATION_ID, constructor)
   \<and> subscriptions (snd (onLocationChanged constructor ''a'' (Function 1 False) Undefined)) =
       subscriptions constructor
   \<and> sent (snd (onLocationChanged constructor ''a'' (Function 1 False) Undefined)) =
       sent constructor"
proof -
  have u: "\<not> typeof_number Undefined" by simp
  from onLocationChanged_without_number [OF u, of constructor "''a''" "Function 1 False"] u
  show ?thesis by simp
qed

subsection \<open>Registering by identifier\<close>

text \<open>
  C8. In every state, the registry after \<^verbatim>\<open>subscribe\<close> is \<open>register\<close> applied to the
  registry before: unchanged when a record with the identifier is already there, the
  record appended at the end otherwise, whatever else the call does (send, open, throw).
  Registering the same record a second time changes nothing, and the replay of the open
  handler leaves the registry as it was.
\<close>

theorem subscribe_registers_by_id:
  "subscriptions (snd (subscribe s r cb)) = register (subscriptions s) r
   \<and> register (subscriptions s) r =
       (if sub_id r \<in> sub_id ` set (subscriptions s) then subscriptions s
        else subscriptions s @ [r])
   \<and> subscriptions (snd (subscribe (snd (subscribe s r cb)) r cb')) =
       subscriptions (snd (subscribe s r cb))
   \<and> subscriptions (snd (onopen s)) = subscriptions s"
  by (simp add: subscribe_subscriptions onopen_subscriptions register_def)

theorem subscribe_registers_by_id_witness:
  "subscriptions (snd (subscribe connectedOnce (exampleSubscription ''b'') NotFunction)) =
     [exampleSubscription ''a'', exampleSubscription ''b'']
   \<and> subscriptions (snd (subscribe connectedOnce (exampleSubscription ''a'') NotFunction)) =
     [exampleSubscription ''a'']
   \<and> subscriptions (snd (onopen connectedOnce)) = [exampleSubscription ''a'']"
  using subscribe_registers_by_id [of connectedOnce "exampleSubscription ''b''" NotFunction]
    subscribe_registers_by_id [of connectedOnce "exampleSubscription ''a''" NotFunction]
  by (simp add: connectedOnce_eq exampleSubscription_def)

subsection \<open>Frames for an unbound identifier\<close>

text \<open>
  C9. For every state and every text frame that parses to a message whose
  \<^verbatim>\<open>subscriptionId\<close> has no entry in the callback map, the message handler returns
  normally with the state it was given: nothing is thrown, no callback is called, no
  field changes.
\<close>

theorem onmessage_unbound:
  assumes "JSON_parse text = Some m"
    and "map_of (subscriptionCallbackMap s) (subscriptionId m) = None"
  shows "onmessage JSON_parse s (StringData text) = (Returned, s)"
  using assms by (simp add: onmessage_def)

theorem onmessage_unbound_witness:
  "onmessage (\<lambda>t. if t = ''{}'' then Some \<lparr>subscriptionId = ''undefined'', data = []\<rparr> else None)
     connectedOnce (StringData ''{}'') = (Returned, connectedOnce)"
  by (rule onmessage_unbound [where m = "\<lparr>subscriptionId = ''undefined'', data = []\<rparr>"])
     (simp_all add: connectedOnce_eq)

subsection \<open>Subscribing after a reset\<close>

text \<open>
  C10. \<^verbatim>\<open>reset()\<close> sets the API key to the empty string and both connection flags to false.
  From the state it leaves, in every sequence of calls of the public subscribe methods
  made before \<^verbatim>\<open>setKey\<close> is called again, each call reaches \<^verbatim>\<open>openSocket\<close> and throws the
  missing-key error to its caller, and no socket is constructed.
\<close>

theorem subscribe_after_reset:
  "apiKey (reset s) = [] \<and> \<not> connected (reset s) \<and> \<not> connecting (reset s)
   \<and> fst (performAll (reset s) cs) = replicate (length cs) (Threw MISSING_API_KEY)
   \<and> sockets (snd (performAll (reset s) cs)) = sockets (reset s)"
  using reset_flags [of s] performAll_no_key [of "reset s" cs] by simp

theorem subscribe_after_reset_witness:
  "fst (performAll (reset connectedOnce)
      [(''x'', TicketCalled (Function 7 False) None),
       (''y'', LocationChanged (Function 8 False) 5)]) =
     [Threw MISSING_API_KEY, Threw MISSING_API_KEY]
   \<and> length (sockets (snd (performAll (reset connectedOnce)
      [(''x'', TicketCalled (Function 7 False) None),
       (''y'', LocationChanged (Function 8 False) 5)]))) = 1"
proof -
  have "sockets (reset connectedOnce) =
          [\<lparr>url = ''wss://api.qminder.com:443/events?rest-api-key=key'', readyState = CLOSING\<rparr>]"
    by (simp add: connectedOnce_eq reset_def readyStateOf_def socket_close_def
        setReadyState_def clearInterval_def Let_def)
  with subscribe_after_reset [of connectedOnce
      "[(''x'', TicketCalled (Function 7 False) None),
        (''y'', LocationChanged (Function 8 False) 5)]"]
  show ?thesis by (simp add: numeral_2_eq_2)
qed

end
